theory Spec2Isabelle
  imports Complex_Main
begin

section \<open>The progressive image loader of assets/js/image-loader.js\<close>

text \<open>
  The class \<^verbatim>\<open>ImageLoader\<close> is event driven: every method runs to completion, and what
  happens later (a detached probe image reporting load or error, a timer firing, the
  intersection observer calling back, an error event on a live image) is a new event
  that calls back into the class.  The model is a state record for the loader and the
  DOM it touches, one function per method, and a function \<open>step\<close> that dispatches an
  event to the callback the source registered for it.  Closures that the source leaves
  behind (the \<^verbatim>\<open>onload\<close>/\<^verbatim>\<open>onerror\<close> handlers of a probe, the callback of
  \<^verbatim>\<open>setTimeout\<close>) are data in the state: the variables they captured.
\<close>

subsection \<open>The DOM as the loader sees it\<close>

text \<open>
  An image element is identified by a number (object identity in the source).  Its
  \<^verbatim>\<open>dataset\<close> entries are \<open>None\<close> when the attribute is absent (\<^verbatim>\<open>undefined\<close>).
  A \<^verbatim>\<open>classList\<close> is an ordered list of tokens without duplicates.  Every element
  the loader handles comes from \<^verbatim>\<open>document.querySelectorAll\<close> or from an event
  dispatched through the document, so it has a parent element: \<open>parentClassList\<close> is
  the class list of \<^verbatim>\<open>img.parentElement\<close>, and \<open>outerClassLists\<close> are the class lists
  of the further ancestors, innermost first.  Each image carries its own ancestor
  chain; class lists of containers are not shared between images.
\<close>

type_synonym elem = nat
type_synonym tokens = "string list"

record imgElement =
  src :: string
  alt :: string
  dataset_webp :: "string option"
  dataset_jpg :: "string option"
  dataset_fallback :: "string option"
  dataset_src :: "string option"
  classList :: tokens
  parentClassList :: tokens
  outerClassLists :: "tokens list"

definition classAdd :: "string \<Rightarrow> tokens \<Rightarrow> tokens" where
  "classAdd c cl = (if c \<in> set cl then cl else cl @ [c])"

definition classRemove :: "string \<Rightarrow> tokens \<Rightarrow> tokens" where
  "classRemove c cl = removeAll c cl"

text \<open>\<^verbatim>\<open>Boolean(x)\<close> for a value that is a string or \<^verbatim>\<open>undefined\<close>.\<close>

definition truthy :: "string option \<Rightarrow> bool" where
  "truthy x = (case x of None \<Rightarrow> False | Some v \<Rightarrow> v \<noteq> [])"

subsection \<open>Closures left behind: probes and timers\<close>

text \<open>
  A probe is a detached \<^verbatim>\<open>new Image()\<close> whose \<^verbatim>\<open>src\<close> has been assigned and whose
  handlers have not run yet.  \<open>FormatProbe\<close> is the one of \<^verbatim>\<open>tryLoadFormats\<close>
  (captured: img, formats, index, currentFormat; the captured container is the parent
  of img), \<open>PrimaryProbe\<close> and \<open>FallbackProbe\<close> are the two of
  \<^verbatim>\<open>loadImageWithFallback\<close>.
\<close>

datatype probe =
    FormatProbe elem "string list" nat string
  | PrimaryProbe elem string "string option"
  | FallbackProbe elem string

fun probeImg :: "probe \<Rightarrow> elem" where
  "probeImg (FormatProbe i fs k c) = i"
| "probeImg (PrimaryProbe i p f) = i"
| "probeImg (FallbackProbe i f) = i"

fun probeSrc :: "probe \<Rightarrow> string" where
  "probeSrc (FormatProbe i fs k c) = c"
| "probeSrc (PrimaryProbe i p f) = p"
| "probeSrc (FallbackProbe i f) = f"

datatype callback = RetryLoad elem | FadeIn elem

type_synonym timer = "nat \<times> callback"

subsection \<open>The loader\<close>

text \<open>
  The fields of the constructor, the DOM (\<open>imgs\<close>), the pending closures, and two
  effect traces: \<open>requests\<close> lists every source assigned to a detached probe, in
  order, and \<open>warnings\<close> what \<^verbatim>\<open>console.warn\<close> was given.  \<open>observed\<close> is the target
  set of the intersection observer stored under \<^verbatim>\<open>'lazy'\<close>; \<open>errorListeners\<close> counts
  the listeners \<^verbatim>\<open>setupErrorHandling\<close> has added to the document.  The map
  \<^verbatim>\<open>loadingQueue\<close> is never written by the source and is left out.
\<close>

record loader =
  loadingImages :: "elem set"
  loadedImages :: "elem set"
  failedImages :: "string set"
  retryAttempts :: "string \<rightharpoonup> nat"
  observed :: "elem set"
  errorListeners :: nat
  imgs :: "elem \<Rightarrow> imgElement"
  probes :: "probe list"
  timers :: "timer list"
  requests :: "(elem \<times> string) list"
  warnings :: "string list"

definition maxRetries :: nat where
  "maxRetries = 3"

definition newLoader :: "(elem \<Rightarrow> imgElement) \<Rightarrow> loader" where
  "newLoader page = \<lparr> loadingImages = {}, loadedImages = {}, failedImages = {},
     retryAttempts = Map.empty, observed = {}, errorListeners = 1, imgs = page,
     probes = [], timers = [], requests = [], warnings = [] \<rparr>"

definition updImg :: "elem \<Rightarrow> (imgElement \<Rightarrow> imgElement) \<Rightarrow> loader \<Rightarrow> loader" where
  "updImg i f s = s\<lparr> imgs := (imgs s)(i := f (imgs s i)) \<rparr>"

text \<open>
  \<^verbatim>\<open>ensureImageContainer\<close>: the parent is returned when it is an image container;
  otherwise a new \<^verbatim>\<open>div\<close> with class name \<^verbatim>\<open>'image-container loading'\<close> is put between
  the image and its parent.  Either way the container is the parent afterwards.
\<close>

definition ensureImageContainer :: "elem \<Rightarrow> loader \<Rightarrow> loader" where
  "ensureImageContainer i s =
     (if ''image-container'' \<in> set (parentClassList (imgs s i)) then s
      else updImg i (\<lambda>im. im\<lparr> parentClassList := [''image-container'', ''loading''],
                               outerClassLists := parentClassList im # outerClassLists im \<rparr>) s)"

text \<open>\<^verbatim>\<open>img.closest('.c')\<close>: the element itself, then its ancestors, innermost first.\<close>

definition closest :: "string \<Rightarrow> imgElement \<Rightarrow> tokens option" where
  "closest c im =
     find (\<lambda>cl. c \<in> set cl) (classList im # parentClassList im # outerClassLists im)"

definition getContextualPlaceholder :: "imgElement \<Rightarrow> string" where
  "getContextualPlaceholder im =
     (if closest ''collection-card'' im \<noteq> None then
        ''assets/images/placeholders/collection-placeholder.svg''
      else if closest ''artwork-card'' im \<noteq> None then
        ''assets/images/placeholders/artwork-placeholder.svg''
      else if closest ''about'' im \<noteq> None then
        ''assets/images/placeholders/avatar-placeholder.svg''
      else ''assets/images/placeholders/image-error.svg'')"

text \<open>\<^verbatim>\<open>img.dataset.src || img.src\<close>\<close>

definition originalSrc :: "imgElement \<Rightarrow> string" where
  "originalSrc im = (if truthy (dataset_src im) then the (dataset_src im) else src im)"

text \<open>\<^verbatim>\<open>this.retryAttempts.get(originalSrc) || 0\<close>\<close>

definition retryCount :: "loader \<Rightarrow> string \<Rightarrow> nat" where
  "retryCount s k = (case retryAttempts s k of None \<Rightarrow> 0 | Some n \<Rightarrow> n)"

definition handleImageError :: "elem \<Rightarrow> loader \<Rightarrow> loader" where
  "handleImageError i s0 =
     (let s = ensureImageContainer i s0;
          orig = originalSrc (imgs s i);
          s1 = s\<lparr> failedImages := insert orig (failedImages s) \<rparr>;
          n = retryCount s1 orig
      in if n < maxRetries then
           s1\<lparr> retryAttempts := (retryAttempts s1)(orig \<mapsto> n + 1),
               timers := timers s1 @ [(2 ^ n * 1000, RetryLoad i)] \<rparr>
         else
           (let s2 = updImg i (\<lambda>im. im\<lparr>
                       classList := classAdd ''error'' (classRemove ''loading'' (classList im)),
                       parentClassList := classAdd ''error''
                         (classRemove ''image-loading''
                           (classRemove ''loading'' (parentClassList im))) \<rparr>) s1;
                placeholderSrc = getContextualPlaceholder (imgs s2 i);
                s3 = updImg i (\<lambda>im. im\<lparr> src := placeholderSrc,
                                         alt := ''Image temporarily unavailable'' \<rparr>) s2
            in s3\<lparr> loadingImages := loadingImages s3 - {i},
                   warnings := warnings s3 @ [orig] \<rparr>))"

definition markImageLoaded :: "elem \<Rightarrow> loader \<Rightarrow> loader" where
  "markImageLoaded i s =
     (let s1 = updImg i (\<lambda>im. im\<lparr>
                  classList := classAdd ''loaded'' (classRemove ''loading'' (classList im)),
                  parentClassList := classAdd ''loaded''
                    (classRemove ''image-loading''
                      (classRemove ''loading'' (parentClassList im))) \<rparr>) s
      in s1\<lparr> timers := timers s1 @ [(50, FadeIn i)] \<rparr>)"

text \<open>
  \<^verbatim>\<open>tryLoadFormats\<close>: past the end of the list the slot goes to \<^verbatim>\<open>handleImageError\<close>;
  otherwise a detached probe is given the current format and the method returns.
\<close>

definition tryLoadFormats :: "elem \<Rightarrow> string list \<Rightarrow> nat \<Rightarrow> loader \<Rightarrow> loader" where
  "tryLoadFormats i formats index s =
     (if index \<ge> length formats then handleImageError i s
      else (let currentFormat = formats ! index
            in s\<lparr> probes := probes s @ [FormatProbe i formats index currentFormat],
                  requests := requests s @ [(i, currentFormat)] \<rparr>))"

text \<open>
  The candidate list of \<^verbatim>\<open>loadImageProgressive\<close>:
  \<^verbatim>\<open>[dataset.webp, dataset.jpg, dataset.fallback, dataset.src, src].filter(Boolean)\<close>.
\<close>

definition candidates :: "imgElement \<Rightarrow> string list" where
  "candidates im =
     map the (filter truthy
       [dataset_webp im, dataset_jpg im, dataset_fallback im, dataset_src im, Some (src im)])"

definition loadImageProgressive :: "elem \<Rightarrow> loader \<Rightarrow> loader" where
  "loadImageProgressive i s =
     (if i \<in> loadingImages s then s
      else (let s1 = s\<lparr> loadingImages := insert i (loadingImages s) \<rparr>;
                s2 = ensureImageContainer i s1
            in tryLoadFormats i (candidates (imgs s2 i)) 0 s2))"

text \<open>
  \<^verbatim>\<open>replaceImageWithProgressive(img, formats)\<close>.  \<open>Cascade\<close> is an object with the
  properties webp, jpg and fallback (the last two possibly \<^verbatim>\<open>undefined\<close>, which a
  \<^verbatim>\<open>dataset\<close> assignment stores as the string \<^verbatim>\<open>"undefined"\<close>); an object whose webp is
  falsy takes the legacy branch, where it is stored as its string conversion.
\<close>

datatype formats = Cascade string "string option" "string option" | Legacy string

definition storeFormats :: "formats \<Rightarrow> imgElement \<Rightarrow> imgElement" where
  "storeFormats f im =
     (case f of
        Cascade w j fb \<Rightarrow>
          if w \<noteq> [] then
            im\<lparr> dataset_webp := Some w,
                dataset_jpg := Some (case j of None \<Rightarrow> ''undefined'' | Some v \<Rightarrow> v),
                dataset_fallback := Some (case fb of None \<Rightarrow> ''undefined'' | Some v \<Rightarrow> v) \<rparr>
          else im\<lparr> dataset_fallback := Some ''[object Object]'' \<rparr>
      | Legacy v \<Rightarrow> im\<lparr> dataset_fallback := Some v \<rparr>)"

definition replaceImageWithProgressive :: "elem \<Rightarrow> formats \<Rightarrow> loader \<Rightarrow> loader" where
  "replaceImageWithProgressive i f s =
     (let s1 = ensureImageContainer i s;
          s2 = updImg i (storeFormats f) s1;
          s3 = updImg i (\<lambda>im. im\<lparr>
                  parentClassList := classAdd ''image-loading''
                    (classAdd ''loading'' (parentClassList im)),
                  classList := classAdd ''loading'' (classList im) \<rparr>) s2
      in loadImageProgressive i s3)"

definition loadImageWithFallback :: "elem \<Rightarrow> string \<Rightarrow> string option \<Rightarrow> loader \<Rightarrow> loader" where
  "loadImageWithFallback i primarySrc fallbackSrc s =
     (let s1 = ensureImageContainer i s;
          s2 = updImg i (\<lambda>im. im\<lparr> parentClassList := classAdd ''loading'' (parentClassList im) \<rparr>) s1
      in s2\<lparr> probes := probes s2 @ [PrimaryProbe i primarySrc fallbackSrc],
             requests := requests s2 @ [(i, primarySrc)] \<rparr>)"

text \<open>\<^verbatim>\<open>refreshImages\<close>: the three \<^verbatim>\<open>clear()\<close> calls and the added error listener.  Its
  re-scan calls \<^verbatim>\<open>replaceImageWithProgressive\<close> on the images it matches; those calls
  are events of their own below.\<close>

definition refreshImages :: "loader \<Rightarrow> loader" where
  "refreshImages s =
     s\<lparr> loadingImages := {}, failedImages := {}, retryAttempts := Map.empty,
        errorListeners := Suc (errorListeners s) \<rparr>"

subsection \<open>The lazy visibility detector\<close>



text \<open>The body of \<^verbatim>\<open>entries.forEach\<close>: an entry is its target and \<^verbatim>\<open>isIntersecting\<close>.\<close>

definition observerEntry :: "elem \<times> bool \<Rightarrow> loader \<Rightarrow> loader" where
  "observerEntry entry s =
     (case entry of (i, isIntersecting) \<Rightarrow>
        if isIntersecting then
          (let s1 = ensureImageContainer i s;
               s2 = updImg i (\<lambda>im. im\<lparr> parentClassList :=
                                   classAdd ''image-loading'' (parentClassList im) \<rparr>) s1;
               s3 = loadImageProgressive i s2
           in s3\<lparr> observed := observed s3 - {i} \<rparr>)
        else s)"

definition lazyCallback :: "(elem \<times> bool) list \<Rightarrow> loader \<Rightarrow> loader" where
  "lazyCallback entries s = fold observerEntry entries s"

subsection \<open>Events\<close>

text \<open>
  What the page and the browser can do to the loader.  A probe or a timer reports only
  while it is pending, and then once; the intersection observer reports a batch with
  one entry for each of some targets it is observing.  An event the browser cannot
  deliver in a state leaves the state as it is.
\<close>

datatype event =
    LoadImage elem
  | ReplaceImage elem formats
  | LoadWithFallback elem string "string option"
  | RefreshImages
  | Observe elem
  | Intersection "(elem \<times> bool) list"
  | ProbeLoaded probe
  | ProbeFailed probe
  | TimerFired timer
  | ImgError elem

definition commitSource :: "elem \<Rightarrow> string \<Rightarrow> loader \<Rightarrow> loader" where
  "commitSource i c s = markImageLoaded i (updImg i (\<lambda>im. im\<lparr> src := c \<rparr>) s)"

fun onload :: "probe \<Rightarrow> loader \<Rightarrow> loader" where
  "onload (FormatProbe i fs k c) s =
     (let s1 = commitSource i c s
      in s1\<lparr> loadingImages := loadingImages s1 - {i},
             loadedImages := insert i (loadedImages s1) \<rparr>)"
| "onload (PrimaryProbe i p f) s = commitSource i p s"
| "onload (FallbackProbe i f) s = commitSource i f s"

fun onerror :: "probe \<Rightarrow> loader \<Rightarrow> loader" where
  "onerror (FormatProbe i fs k c) s = tryLoadFormats i fs (k + 1) s"
| "onerror (PrimaryProbe i p f) s =
     (if truthy f then
        s\<lparr> probes := probes s @ [FallbackProbe i (the f)],
           requests := requests s @ [(i, the f)] \<rparr>
      else handleImageError i s)"
| "onerror (FallbackProbe i f) s = handleImageError i s"

fun runCallback :: "callback \<Rightarrow> loader \<Rightarrow> loader" where
  "runCallback (RetryLoad i) s = loadImageProgressive i s"
| "runCallback (FadeIn i) s =
     updImg i (\<lambda>im. im\<lparr> classList := classAdd ''fade-in'' (classList im) \<rparr>) s"

fun step :: "event \<Rightarrow> loader \<Rightarrow> loader" where
  "step (LoadImage i) s = loadImageProgressive i s"
| "step (ReplaceImage i f) s = replaceImageWithProgressive i f s"
| "step (LoadWithFallback i p f) s = loadImageWithFallback i p f s"
| "step RefreshImages s = refreshImages s"
| "step (Observe i) s = s\<lparr> observed := insert i (observed s) \<rparr>"
| "step (Intersection entries) s =
     (if distinct (map fst entries) \<and> (\<forall>e \<in> set entries. fst e \<in> observed s)
      then lazyCallback entries s else s)"
| "step (ProbeLoaded p) s =
     (if p \<in> set (probes s) then onload p (s\<lparr> probes := remove1 p (probes s) \<rparr>) else s)"
| "step (ProbeFailed p) s =
     (if p \<in> set (probes s) then onerror p (s\<lparr> probes := remove1 p (probes s) \<rparr>) else s)"
| "step (TimerFired t) s =
     (if t \<in> set (timers s) then runCallback (snd t) (s\<lparr> timers := remove1 t (timers s) \<rparr>)
      else s)"
| "step (ImgError i) s = ((handleImageError i) ^^ (errorListeners s)) s"

fun run :: "event list \<Rightarrow> loader \<Rightarrow> loader" where
  "run [] s = s"
| "run (e # es) s = run es (step e s)"

subsection \<open>Runs and what is read off them\<close>

text \<open>The four placeholder URIs of \<^verbatim>\<open>getContextualPlaceholder\<close>.\<close>

definition placeholders :: "string set" where
  "placeholders = {''assets/images/placeholders/collection-placeholder.svg'',
     ''assets/images/placeholders/artwork-placeholder.svg'',
     ''assets/images/placeholders/avatar-placeholder.svg'',
     ''assets/images/placeholders/image-error.svg''}"

text \<open>The (element, source) pairs whose probe reported a successful decode: in one
  step, and along a run.\<close>

fun decodedBy :: "event \<Rightarrow> loader \<Rightarrow> (elem \<times> string) list" where
  "decodedBy (ProbeLoaded p) s = (if p \<in> set (probes s) then [(probeImg p, probeSrc p)] else [])"
| "decodedBy e s = []"

fun decoded :: "event list \<Rightarrow> loader \<Rightarrow> (elem \<times> string) list" where
  "decoded [] s = []"
| "decoded (e # es) s = decodedBy e s @ decoded es (step e s)"

text \<open>\<open>quiet s s'\<close>: from \<open>s\<close> to \<open>s'\<close> every live \<^verbatim>\<open>src\<close> is unchanged or a placeholder.\<close>

definition quiet :: "loader \<Rightarrow> loader \<Rightarrow> bool" where
  "quiet s s' = (\<forall>i. src (imgs s' i) = src (imgs s i) \<or> src (imgs s' i) \<in> placeholders)"

text \<open>Every pending probe has had its source recorded in the request trace, and
  \<open>keeps s s'\<close>: the trace only grows and that property is kept.\<close>

definition probesRequested :: "loader \<Rightarrow> bool" where
  "probesRequested s = (\<forall>p \<in> set (probes s). (probeImg p, probeSrc p) \<in> set (requests s))"

definition keeps :: "loader \<Rightarrow> loader \<Rightarrow> bool" where
  "keeps s s' = (set (requests s) \<subseteq> set (requests s') \<and> (probesRequested s \<longrightarrow> probesRequested s'))"

text \<open>The bound of the retry counters.\<close>

definition retryBounded :: "loader \<Rightarrow> bool" where
  "retryBounded s = (\<forall>k n. retryAttempts s k = Some n \<longrightarrow> n \<le> maxRetries)"

subsection \<open>The network and the viewport as event lists\<close>

text \<open>
  \<open>answerPass net i fs k cs\<close> are the probe events of one pass over the candidates \<open>cs\<close>
  (the rest of \<open>fs\<close> from index \<open>k\<close>) when \<open>net\<close> says which sources decode: every
  candidate that does not decode reports an error, the first one that decodes reports
  load, and nothing is reported after that.  \<open>attempted net fs\<close> are the candidates up
  to and including the first that decodes.
\<close>

fun answerPass :: "(string \<Rightarrow> bool) \<Rightarrow> elem \<Rightarrow> string list \<Rightarrow> nat \<Rightarrow> string list \<Rightarrow> event list" where
  "answerPass net i fs k [] = []"
| "answerPass net i fs k (c # cs) =
     (if net c then [ProbeLoaded (FormatProbe i fs k c)]
      else ProbeFailed (FormatProbe i fs k c) # answerPass net i fs (Suc k) cs)"

definition passEvents :: "(string \<Rightarrow> bool) \<Rightarrow> elem \<Rightarrow> string list \<Rightarrow> event list" where
  "passEvents net i fs = answerPass net i fs 0 fs"

definition attempted :: "(string \<Rightarrow> bool) \<Rightarrow> string list \<Rightarrow> string list" where
  "attempted net fs = takeWhile (\<lambda>c. \<not> net c) fs @ take 1 (dropWhile (\<lambda>c. \<not> net c) fs)"




subsection \<open>The placeholder as the specification words it\<close>

text \<open>
  The specification lets the innermost recognised container decide: the first class
  list, from the element outwards, that names a collection card, an artwork card or the
  about region.  \<open>inContext c im\<close> says that the element or one of its ancestors carries
  the class \<open>c\<close>.
\<close>

definition contextOf :: "tokens \<Rightarrow> string option" where
  "contextOf cl =
     (if ''collection-card'' \<in> set cl then Some ''assets/images/placeholders/collection-placeholder.svg''
      else if ''artwork-card'' \<in> set cl then Some ''assets/images/placeholders/artwork-placeholder.svg''
      else if ''about'' \<in> set cl then Some ''assets/images/placeholders/avatar-placeholder.svg''
      else None)"

definition innermostPlaceholder :: "imgElement \<Rightarrow> string" where
  "innermostPlaceholder im =
     (case find (\<lambda>cl. contextOf cl \<noteq> None)
             (classList im # parentClassList im # outerClassLists im) of
        Some cl \<Rightarrow> the (contextOf cl)
      | None \<Rightarrow> ''assets/images/placeholders/image-error.svg'')"

definition inContext :: "string \<Rightarrow> imgElement \<Rightarrow> bool" where
  "inContext c im =
     (c \<in> set (classList im) \<or> c \<in> set (parentClassList im)
      \<or> (\<exists>cl \<in> set (outerClassLists im). c \<in> set cl))"

subsection \<open>Example pages\<close>

text \<open>Concrete elements for evaluating the model.  \<open>brokenCard\<close> has the candidate list
  \<open>[bad1.webp, bad2.jpg]\<close> and sits in an artwork card; \<open>brokenPlain\<close> has the single
  candidate \<open>broken.png\<close> and no recognised ancestor.\<close>

definition plainImg :: imgElement where
  "plainImg = \<lparr> src = [], alt = [], dataset_webp = None, dataset_jpg = None,
     dataset_fallback = None, dataset_src = None, classList = [], parentClassList = [],
     outerClassLists = [] \<rparr>"

definition brokenCard :: imgElement where
  "brokenCard = plainImg\<lparr> src := ''bad2.jpg'', dataset_webp := Some ''bad1.webp'',
     parentClassList := [''artwork-card''] \<rparr>"

definition brokenPlain :: imgElement where
  "brokenPlain = plainImg\<lparr> src := ''broken.png'' \<rparr>"

definition cardPass :: "event list" where
  "cardPass = [LoadImage 0,
     ProbeFailed (FormatProbe 0 [''bad1.webp'', ''bad2.jpg''] 0 ''bad1.webp''),
     ProbeFailed (FormatProbe 0 [''bad1.webp'', ''bad2.jpg''] 1 ''bad2.jpg'')]"

definition plainPass :: "event list" where
  "plainPass = [LoadImage 0, ProbeFailed (FormatProbe 0 [''broken.png''] 0 ''broken.png'')]"

definition fiveErrors :: "event list" where
  "fiveErrors = [ImgError 0, ImgError 0, ImgError 0, ImgError 0, ImgError 0]"

definition svgCard :: imgElement where
  "svgCard = plainImg\<lparr> src := ''legacy.png'', dataset_webp := Some ''missing.webp'',
     dataset_jpg := Some ''missing.jpg'', dataset_fallback := Some ''present.svg'',
     parentClassList := [''image-container''], outerClassLists := [[''artwork-card'']] \<rparr>"

definition svgFormats :: "string list" where
  "svgFormats = [''missing.webp'', ''missing.jpg'', ''present.svg'', ''legacy.png'']"

definition svgPass :: "event list" where
  "svgPass = [LoadImage 0,
     ProbeFailed (FormatProbe 0 svgFormats 0 ''missing.webp''),
     ProbeFailed (FormatProbe 0 svgFormats 1 ''missing.jpg''),
     ProbeLoaded (FormatProbe 0 svgFormats 2 ''present.svg'')]"

definition svgFailing :: "event list" where
  "svgFailing = [LoadImage 0,
     ProbeFailed (FormatProbe 0 svgFormats 0 ''missing.webp''),
     ProbeFailed (FormatProbe 0 svgFormats 1 ''missing.jpg'')]"

definition svgFormatsAgain :: "string list" where
  "svgFormatsAgain = [''missing.webp'', ''missing.jpg'', ''present.svg'', ''present.svg'']"

definition threeErrors :: "event list" where
  "threeErrors = [ImgError 0, ImgError 0, ImgError 0]"

text \<open>An artwork card nested in a collection card; two elements with the same source in
  different containers and a third with another source; a lazy image and what the
  viewport does to it.\<close>

definition nestedImg :: imgElement where
  "nestedImg = plainImg\<lparr> src := ''art.jpg'', parentClassList := [''artwork-card''],
     outerClassLists := [[''collection-card'']] \<rparr>"







definition viewport :: "event list" where
  "viewport = [Intersection [(0, False)], Intersection [(0, True)], Intersection [(0, True)],
     Intersection [(0, False)], Intersection [(0, True)]]"

section \<open>Properties\<close>

lemmas loader_eval = loadImageProgressive_def ensureImageContainer_def updImg_def
  tryLoadFormats_def candidates_def truthy_def handleImageError_def Let_def retryCount_def
  originalSrc_def maxRetries_def newLoader_def classAdd_def classRemove_def
  markImageLoaded_def commitSource_def getContextualPlaceholder_def closest_def
  plainImg_def brokenCard_def brokenPlain_def cardPass_def plainPass_def

subsection \<open>What each method leaves alone\<close>

lemma ensure_other [simp]:
  "loadingImages (ensureImageContainer i s) = loadingImages s"
  "loadedImages (ensureImageContainer i s) = loadedImages s"
  "failedImages (ensureImageContainer i s) = failedImages s"
  "retryAttempts (ensureImageContainer i s) = retryAttempts s"
  "observed (ensureImageContainer i s) = observed s"
  "errorListeners (ensureImageContainer i s) = errorListeners s"
  "probes (ensureImageContainer i s) = probes s"
  "timers (ensureImageContainer i s) = timers s"
  "requests (ensureImageContainer i s) = requests s"
  "warnings (ensureImageContainer i s) = warnings s"
  by (simp_all add: ensureImageContainer_def updImg_def)

lemma ensure_img [simp]:
  "src (imgs (ensureImageContainer i s) j) = src (imgs s j)"
  "alt (imgs (ensureImageContainer i s) j) = alt (imgs s j)"
  "dataset_webp (imgs (ensureImageContainer i s) j) = dataset_webp (imgs s j)"
  "dataset_jpg (imgs (ensureImageContainer i s) j) = dataset_jpg (imgs s j)"
  "dataset_fallback (imgs (ensureImageContainer i s) j) = dataset_fallback (imgs s j)"
  "dataset_src (imgs (ensureImageContainer i s) j) = dataset_src (imgs s j)"
  "classList (imgs (ensureImageContainer i s) j) = classList (imgs s j)"
  by (simp_all add: ensureImageContainer_def updImg_def)

lemma updImg_other [simp]:
  "loadingImages (updImg i f s) = loadingImages s"
  "loadedImages (updImg i f s) = loadedImages s"
  "failedImages (updImg i f s) = failedImages s"
  "retryAttempts (updImg i f s) = retryAttempts s"
  "observed (updImg i f s) = observed s"
  "errorListeners (updImg i f s) = errorListeners s"
  "probes (updImg i f s) = probes s"
  "timers (updImg i f s) = timers s"
  "requests (updImg i f s) = requests s"
  "warnings (updImg i f s) = warnings s"
  by (simp_all add: updImg_def)

lemma updImg_imgs [simp]: "imgs (updImg i f s) j = (if j = i then f (imgs s i) else imgs s j)"
  by (simp add: updImg_def)


lemma handle_other [simp]:
  "loadedImages (handleImageError i s) = loadedImages s"
  "observed (handleImageError i s) = observed s"
  "errorListeners (handleImageError i s) = errorListeners s"
  "probes (handleImageError i s) = probes s"
  "requests (handleImageError i s) = requests s"
  by (simp_all add: handleImageError_def Let_def)

subsection \<open>The guard of loadImageProgressive\<close>

text \<open>
  C10.  For an element that is in \<open>loadingImages\<close>, \<^verbatim>\<open>loadImageProgressive\<close> returns at
  its first line: the whole state (the sets, the retry map, the element, its container,
  the pending probes, the request trace) is the state before.  The same holds for the
  public trigger, and a backoff timer for that element that fires in such a state only
  disappears from the pending timers.
\<close>

theorem loading_guard_is_noop:
  assumes "i \<in> loadingImages s"
  shows "loadImageProgressive i s = s \<and> step (LoadImage i) s = s \<and>
         step (TimerFired (d, RetryLoad i)) s =
           (if (d, RetryLoad i) \<in> set (timers s)
            then s\<lparr> timers := remove1 (d, RetryLoad i) (timers s) \<rparr> else s)"
  using assms by (simp add: loadImageProgressive_def)

theorem loading_guard_is_noop_witness:
  "0 \<in> loadingImages (run cardPass (newLoader (\<lambda>_. brokenCard))) \<and>
   loadImageProgressive 0 (run cardPass (newLoader (\<lambda>_. brokenCard)))
     = run cardPass (newLoader (\<lambda>_. brokenCard)) \<and>
   timers (run cardPass (newLoader (\<lambda>_. brokenCard))) = [(1000, RetryLoad 0)] \<and>
   timers (step (TimerFired (1000, RetryLoad 0)) (run cardPass (newLoader (\<lambda>_. brokenCard)))) = []"
proof -
  have m: "0 \<in> loadingImages (run cardPass (newLoader (\<lambda>_. brokenCard)))"
    by (simp add: loader_eval)
  have t: "timers (run cardPass (newLoader (\<lambda>_. brokenCard))) = [(1000, RetryLoad 0)]"
    by (simp add: loader_eval)
  from loading_guard_is_noop [OF m, of 1000] m t show ?thesis
    by simp
qed

subsection \<open>The backoff retry\<close>

text \<open>
  C1.  The element \<open>brokenCard\<close> is triggered and both its candidates fail.  The first
  exhaustion sets the retry counter of its original source to 1 and schedules one timer
  of 1000 ms.  The element is still in \<open>loadingImages\<close> when the timer fires, so the
  retry returns at the guard: no candidate is probed again, no second or third retry is
  scheduled, nothing is pending any more, and the element has neither the error class
  nor a placeholder.  A further trigger changes nothing either.
\<close>

theorem retry_after_exhaustion_is_inert:
  "timers (run cardPass (newLoader (\<lambda>_. brokenCard))) = [(1000, RetryLoad 0)] \<and>
   (let s = run (cardPass @ [TimerFired (1000, RetryLoad 0)]) (newLoader (\<lambda>_. brokenCard))
    in requests s = [(0, ''bad1.webp''), (0, ''bad2.jpg'')] \<and>
       probes s = [] \<and> timers s = [] \<and>
       retryAttempts s ''bad2.jpg'' = Some 1 \<and>
       0 \<in> loadingImages s \<and>
       ''error'' \<notin> set (classList (imgs s 0)) \<and>
       ''error'' \<notin> set (parentClassList (imgs s 0)) \<and>
       src (imgs s 0) = ''bad2.jpg'' \<and>
       warnings s = [] \<and>
       step (LoadImage 0) s = s)"
  by (simp add: loader_eval)

subsection \<open>Failure paths and terminal states\<close>

text \<open>
  C3.  The element \<open>brokenPlain\<close> has one candidate, which fails.  After the pass and
  after the one scheduled retry has fired, the element is in neither terminal state: it
  is not in \<open>loadedImages\<close> and has no loaded class, it has no error class and no
  placeholder, and it stays in \<open>loadingImages\<close> with its container still marked as
  loading.  No probe and no timer is pending, so nothing will move it from there.
\<close>

theorem exhausted_slot_reaches_no_terminal_state:
  "(let s = run (plainPass @ [TimerFired (1000, RetryLoad 0)]) (newLoader (\<lambda>_. brokenPlain))
    in 0 \<notin> loadedImages s \<and>
       ''loaded'' \<notin> set (classList (imgs s 0)) \<and>
       ''error'' \<notin> set (classList (imgs s 0)) \<and>
       src (imgs s 0) = ''broken.png'' \<and>
       alt (imgs s 0) = [] \<and>
       0 \<in> loadingImages s \<and>
       parentClassList (imgs s 0) = [''image-container'', ''loading''] \<and>
       probes s = [] \<and> timers s = [] \<and>
       retryAttempts s ''broken.png'' = Some 1)"
  by (simp add: loader_eval)

subsection \<open>The retry counter is bounded\<close>

lemma rb_frame [simp]:
  "retryBounded (updImg i f s) = retryBounded s"
  "retryBounded (ensureImageContainer i s) = retryBounded s"
  "retryBounded (s\<lparr> loadingImages := a \<rparr>) = retryBounded s"
  "retryBounded (s\<lparr> loadedImages := a \<rparr>) = retryBounded s"
  "retryBounded (s\<lparr> failedImages := b \<rparr>) = retryBounded s"
  "retryBounded (s\<lparr> observed := a \<rparr>) = retryBounded s"
  "retryBounded (s\<lparr> errorListeners := n \<rparr>) = retryBounded s"
  "retryBounded (s\<lparr> probes := ps \<rparr>) = retryBounded s"
  "retryBounded (s\<lparr> timers := ts \<rparr>) = retryBounded s"
  "retryBounded (s\<lparr> requests := rs \<rparr>) = retryBounded s"
  "retryBounded (s\<lparr> warnings := ws \<rparr>) = retryBounded s"
  by (simp_all add: retryBounded_def)

lemma rb_handle: "retryBounded s \<Longrightarrow> retryBounded (handleImageError i s)"
  by (auto simp: retryBounded_def handleImageError_def Let_def retryCount_def)

lemma rb_try: "retryBounded s \<Longrightarrow> retryBounded (tryLoadFormats i fs k s)"
  by (simp add: tryLoadFormats_def rb_handle Let_def)

lemma rb_load: "retryBounded s \<Longrightarrow> retryBounded (loadImageProgressive i s)"
  by (simp add: loadImageProgressive_def Let_def rb_try)

lemma rb_replace: "retryBounded s \<Longrightarrow> retryBounded (replaceImageWithProgressive i f s)"
  by (simp add: replaceImageWithProgressive_def Let_def rb_load)

lemma rb_fallback: "retryBounded s \<Longrightarrow> retryBounded (loadImageWithFallback i p f s)"
  by (simp add: loadImageWithFallback_def Let_def)

lemma rb_refresh: "retryBounded (refreshImages s)"
  by (simp add: refreshImages_def retryBounded_def)

lemma rb_entry: "retryBounded s \<Longrightarrow> retryBounded (observerEntry e s)"
  by (cases e) (simp add: observerEntry_def Let_def rb_load)

lemma rb_lazy: "retryBounded s \<Longrightarrow> retryBounded (lazyCallback es s)"
  unfolding lazyCallback_def by (induction es arbitrary: s) (simp_all add: rb_entry)

lemma rb_onload: "retryBounded s \<Longrightarrow> retryBounded (onload p s)"
  by (cases p) (simp_all add: commitSource_def markImageLoaded_def Let_def)

lemma rb_onerror: "retryBounded s \<Longrightarrow> retryBounded (onerror p s)"
  by (cases p) (simp_all add: rb_try rb_handle)

lemma rb_callback: "retryBounded s \<Longrightarrow> retryBounded (runCallback c s)"
  by (cases c) (simp_all add: rb_load)

lemma rb_pow: "retryBounded s \<Longrightarrow> retryBounded ((handleImageError i ^^ n) s)"
  by (induction n) (simp_all add: rb_handle)

lemma rb_step: "retryBounded s \<Longrightarrow> retryBounded (step e s)"
  by (cases e) (simp_all add: rb_load rb_replace rb_fallback rb_refresh rb_lazy rb_pow
     rb_onload rb_onerror rb_callback)

lemma rb_run: "retryBounded s \<Longrightarrow> retryBounded (run es s)"
  by (induction es arbitrary: s) (simp_all add: rb_step)

lemma rb_new: "retryBounded (newLoader page)"
  by (simp add: retryBounded_def newLoader_def)

text \<open>
  C9.  Start from a fresh loader on any page and let any sequence of events happen
  (triggers, replacements, probe results, timers, observer batches, error events,
  refreshes).  The counter stored for any source reference is then at most
  \<open>maxRetries\<close>, which is 3.
\<close>

theorem retry_counter_bounded:
  "maxRetries = 3 \<and> retryCount (run es (newLoader page)) k \<le> maxRetries \<and>
   (\<forall>n. retryAttempts (run es (newLoader page)) k = Some n \<longrightarrow> n \<le> 3)"
  using rb_run[OF rb_new, of es page]
  by (auto simp: retryBounded_def retryCount_def maxRetries_def split: option.splits)

theorem retry_counter_bounded_witness:
  "retryAttempts (run fiveErrors (newLoader (\<lambda>_. brokenCard))) ''bad2.jpg'' = Some 3 \<and>
   retryCount (run fiveErrors (newLoader (\<lambda>_. brokenCard))) ''bad2.jpg'' \<le> 3"
proof -
  have a: "retryAttempts (run fiveErrors (newLoader (\<lambda>_. brokenCard))) ''bad2.jpg'' = Some 3"
    by (simp add: loader_eval fiveErrors_def)
  from retry_counter_bounded [of fiveErrors "\<lambda>_. brokenCard" "''bad2.jpg''"] a
  show ?thesis by simp
qed

subsection \<open>What is written to the live element\<close>

lemma quiet_refl [simp]: "quiet s s" by (simp add: quiet_def)

lemma quiet_trans: "quiet s t \<Longrightarrow> quiet t u \<Longrightarrow> quiet s u"
  unfolding quiet_def by metis

lemma placeholder_in: "getContextualPlaceholder im \<in> placeholders"
  by (simp add: getContextualPlaceholder_def placeholders_def)

lemma quiet_handle: "quiet s (handleImageError i s)"
  by (simp add: quiet_def handleImageError_def Let_def placeholder_in)

lemma quiet_try: "quiet s (tryLoadFormats i fs k s)"
  by (simp add: tryLoadFormats_def Let_def quiet_handle) (simp add: quiet_def)

lemma quiet_load: "quiet s (loadImageProgressive i s)"
proof -
  have "quiet s (ensureImageContainer i (s\<lparr> loadingImages := insert i (loadingImages s) \<rparr>))"
    by (simp add: quiet_def)
  then show ?thesis
    by (auto simp: loadImageProgressive_def Let_def intro: quiet_trans quiet_try)
qed

lemma src_storeFormats [simp]: "src (storeFormats f im) = src im"
  by (simp add: storeFormats_def split: formats.splits)

lemma quiet_replace: "quiet s (replaceImageWithProgressive i f s)"
  unfolding replaceImageWithProgressive_def Let_def
  by (rule quiet_trans[OF _ quiet_load]) (simp add: quiet_def)

lemma quiet_fallback: "quiet s (loadImageWithFallback i p f s)"
  by (simp add: loadImageWithFallback_def Let_def quiet_def)

lemma quiet_entry: "quiet s (observerEntry e s)"
proof (cases e)
  case (Pair i b)
  have "quiet s (updImg i (\<lambda>im. im\<lparr> parentClassList :=
          classAdd ''image-loading'' (parentClassList im) \<rparr>) (ensureImageContainer i s))"
    by (simp add: quiet_def)
  from quiet_trans[OF this quiet_load] have "quiet s (loadImageProgressive i (updImg i (\<lambda>im. im\<lparr> parentClassList :=
          classAdd ''image-loading'' (parentClassList im) \<rparr>) (ensureImageContainer i s)))" .
  then show ?thesis using Pair
    by (simp add: observerEntry_def Let_def quiet_def)
qed

lemma quiet_lazy: "quiet s (lazyCallback es s)"
  unfolding lazyCallback_def
proof (induction es arbitrary: s)
  case Nil show ?case by simp
next
  case (Cons e es)
  show ?case using quiet_trans[OF quiet_entry Cons] by simp
qed

lemma quiet_onerror: "quiet s (onerror p s)"
  by (cases p) (simp_all add: quiet_try quiet_handle, simp add: quiet_def)

lemma quiet_callback: "quiet s (runCallback c s)"
  by (cases c) (simp_all add: quiet_load, simp add: quiet_def)

lemma quiet_pow: "quiet s ((handleImageError i ^^ n) s)"
  by (induction n) (auto intro: quiet_trans quiet_handle)

lemma src_onload:
  "src (imgs (onload p s) i) = (if i = probeImg p then probeSrc p else src (imgs s i))"
  by (cases p) (simp_all add: commitSource_def markImageLoaded_def Let_def)

lemma src_step:
  "src (imgs (step e s) i) = src (imgs s i) \<or> src (imgs (step e s) i) \<in> placeholders
     \<or> (i, src (imgs (step e s) i)) \<in> set (decodedBy e s)"
proof (cases e)
  case (ProbeLoaded p)
  then show ?thesis by (simp add: src_onload)
next
  case (ProbeFailed p)
  then show ?thesis using quiet_onerror[of "s\<lparr> probes := remove1 p (probes s) \<rparr>" p]
    by (simp add: quiet_def)
next
  case (TimerFired t)
  then show ?thesis using quiet_callback[of "s\<lparr> timers := remove1 t (timers s) \<rparr>" "snd t"]
    by (simp add: quiet_def)
next
  case (LoadImage j) then show ?thesis using quiet_load[of s j] by (simp add: quiet_def)
next
  case (ReplaceImage j f) then show ?thesis using quiet_replace[of s j f] by (simp add: quiet_def)
next
  case (LoadWithFallback j p f) then show ?thesis using quiet_fallback[of s j p f] by (simp add: quiet_def)
next
  case RefreshImages then show ?thesis by (simp add: refreshImages_def)
next
  case (Observe j) then show ?thesis by simp
next
  case (Intersection es) then show ?thesis using quiet_lazy[of s es] by (simp add: quiet_def)
next
  case (ImgError j) then show ?thesis using quiet_pow[where s=s and i=j and n="errorListeners s"] by (simp add: quiet_def)
qed

lemma src_run:
  "src (imgs (run es s) i) = src (imgs s i) \<or> src (imgs (run es s) i) \<in> placeholders
     \<or> (i, src (imgs (run es s) i)) \<in> set (decoded es s)"
proof (induction es arbitrary: s)
  case Nil show ?case by simp
next
  case (Cons e es)
  from Cons[of "step e s"] src_step[of e s i] show ?case by auto
qed

lemma keeps_refl [simp]: "keeps s s" by (simp add: keeps_def)

lemma keeps_trans: "keeps s t \<Longrightarrow> keeps t u \<Longrightarrow> keeps s u"
  unfolding keeps_def by blast

lemma keeps_same: "requests s' = requests s \<Longrightarrow> set (probes s') \<subseteq> set (probes s) \<Longrightarrow> keeps s s'"
  by (auto simp: keeps_def probesRequested_def)

lemma keeps_handle: "keeps s (handleImageError i s)"
  by (rule keeps_same) simp_all

lemma keeps_try: "keeps s (tryLoadFormats i fs k s)"
  by (auto simp: tryLoadFormats_def Let_def keeps_handle) (auto simp: keeps_def probesRequested_def)

lemma keeps_load: "keeps s (loadImageProgressive i s)"
proof -
  have "keeps s (ensureImageContainer i (s\<lparr> loadingImages := insert i (loadingImages s) \<rparr>))"
    by (rule keeps_same) simp_all
  then show ?thesis
    by (auto simp: loadImageProgressive_def Let_def intro: keeps_trans keeps_try)
qed

lemma keeps_replace: "keeps s (replaceImageWithProgressive i f s)"
  unfolding replaceImageWithProgressive_def Let_def
  by (rule keeps_trans[OF _ keeps_load]) (rule keeps_same, simp_all)

lemma keeps_fallback: "keeps s (loadImageWithFallback i p f s)"
  by (auto simp: loadImageWithFallback_def Let_def keeps_def probesRequested_def)

lemma keeps_entry: "keeps s (observerEntry e s)"
proof (cases e)
  case (Pair i b)
  have "keeps s (updImg i (\<lambda>im. im\<lparr> parentClassList :=
          classAdd ''image-loading'' (parentClassList im) \<rparr>) (ensureImageContainer i s))"
    by (rule keeps_same) simp_all
  from keeps_trans[OF this keeps_load] have "keeps s (loadImageProgressive i (updImg i (\<lambda>im. im\<lparr> parentClassList :=
          classAdd ''image-loading'' (parentClassList im) \<rparr>) (ensureImageContainer i s)))" .
  then show ?thesis using Pair
    by (simp add: observerEntry_def Let_def keeps_def probesRequested_def)
qed

lemma keeps_lazy: "keeps s (lazyCallback es s)"
  unfolding lazyCallback_def
proof (induction es arbitrary: s)
  case Nil show ?case by simp
next
  case (Cons e es)
  show ?case using keeps_trans[OF keeps_entry Cons] by simp
qed

lemma keeps_onerror: "keeps s (onerror p s)"
  by (cases p) (simp_all add: keeps_try keeps_handle, auto simp: keeps_def probesRequested_def)

lemma keeps_onload: "keeps s (onload p s)"
  by (cases p) (simp_all add: commitSource_def markImageLoaded_def Let_def keeps_def probesRequested_def)

lemma keeps_callback: "keeps s (runCallback c s)"
  by (cases c) (simp_all add: keeps_load, auto simp: keeps_def probesRequested_def)

lemma keeps_pow: "keeps s ((handleImageError i ^^ n) s)"
  by (induction n) (auto intro: keeps_trans keeps_handle)

lemma keeps_remove_probe: "keeps s (s\<lparr> probes := remove1 p (probes s) \<rparr>)"
  by (rule keeps_same) (simp_all add: set_remove1_subset)

lemma keeps_remove_timer: "keeps s (s\<lparr> timers := ts \<rparr>)"
  by (rule keeps_same) simp_all

lemma keeps_step: "keeps s (step e s)"
proof (cases e)
  case (ProbeLoaded p)
  then show ?thesis using keeps_trans[OF keeps_remove_probe keeps_onload] by simp
next
  case (ProbeFailed p)
  then show ?thesis using keeps_trans[OF keeps_remove_probe keeps_onerror] by simp
next
  case (TimerFired t)
  then show ?thesis using keeps_trans[OF keeps_remove_timer keeps_callback] by simp
next
  case RefreshImages then show ?thesis by (simp add: refreshImages_def keeps_def probesRequested_def)
next
  case (Observe j) then show ?thesis by (simp add: keeps_def probesRequested_def)
qed (simp_all add: keeps_load keeps_replace keeps_fallback keeps_lazy keeps_pow)

lemma keeps_run: "keeps s (run es s)"
proof (induction es arbitrary: s)
  case Nil show ?case by simp
next
  case (Cons e es)
  show ?case using keeps_trans[OF keeps_step Cons] by simp
qed

lemma decoded_requested:
  "probesRequested s \<Longrightarrow> set (decoded es s) \<subseteq> set (requests (run es s))"
proof (induction es arbitrary: s)
  case Nil show ?case by simp
next
  case (Cons e es)
  have a: "probesRequested (step e s)" using keeps_step[of s e] Cons.prems by (simp add: keeps_def)
  have b: "set (decodedBy e s) \<subseteq> set (requests s)"
    using Cons.prems by (cases e) (auto simp: probesRequested_def)
  have c: "set (requests s) \<subseteq> set (requests (run es (step e s)))"
    using keeps_step[of s e] keeps_run[of "step e s" es] by (auto simp: keeps_def)
  show ?case using Cons.IH[OF a] b c by auto
qed

text \<open>
  C6.  Start from a fresh loader on any page and let any sequence of events happen.
  The \<^verbatim>\<open>src\<close> of a live element is then what the page gave it, or one of the four
  placeholders, or a source whose detached probe reported a successful decode during
  the run; in the last case that source was assigned to a detached probe first (it is
  in the request trace).
\<close>

theorem live_src_only_decoded_or_placeholder:
  "src (imgs (run es (newLoader page)) i) = src (page i)
   \<or> src (imgs (run es (newLoader page)) i) \<in> placeholders
   \<or> ((i, src (imgs (run es (newLoader page)) i)) \<in> set (decoded es (newLoader page))
      \<and> (i, src (imgs (run es (newLoader page)) i)) \<in> set (requests (run es (newLoader page))))"
proof -
  have "probesRequested (newLoader page)" by (simp add: probesRequested_def newLoader_def)
  from decoded_requested[OF this, of es] src_run[of es "newLoader page" i]
  show ?thesis by (auto simp: newLoader_def)
qed

theorem live_src_only_decoded_or_placeholder_witness:
  "src (imgs (run svgPass (newLoader (\<lambda>_. svgCard))) 0) = ''present.svg'' \<and>
   (0, ''present.svg'') \<in> set (decoded svgPass (newLoader (\<lambda>_. svgCard))) \<and>
   (0, ''present.svg'') \<in> set (requests (run svgPass (newLoader (\<lambda>_. svgCard))))"
proof -
  have a: "src (imgs (run svgPass (newLoader (\<lambda>_. svgCard))) 0) = ''present.svg''"
    by (simp add: loader_eval svgPass_def svgCard_def svgFormats_def)
  have b: "''present.svg'' \<noteq> src (svgCard)" "''present.svg'' \<notin> placeholders"
    by (simp_all add: svgCard_def plainImg_def placeholders_def)
  from live_src_only_decoded_or_placeholder [of svgPass "\<lambda>_. svgCard" 0] a b
  show ?thesis by auto
qed

subsection \<open>One pass over the candidates\<close>

lemma attempted_Cons: "attempted net (c # cs) = c # (if net c then [] else attempted net cs)"
  by (simp add: attempted_def)

lemma attempted_prefix: "take (length (attempted net fs)) fs = attempted net fs"
  by (induction fs) (simp_all add: attempted_Cons, simp add: attempted_def)

lemma try_other [simp]:
  "loadedImages (tryLoadFormats i fs k s) = loadedImages s"
  "observed (tryLoadFormats i fs k s) = observed s"
  "errorListeners (tryLoadFormats i fs k s) = errorListeners s"
  by (simp_all add: tryLoadFormats_def Let_def)

lemma load_other [simp]:
  "loadedImages (loadImageProgressive i s) = loadedImages s"
  "observed (loadImageProgressive i s) = observed s"
  "errorListeners (loadImageProgressive i s) = errorListeners s"
  by (simp_all add: loadImageProgressive_def Let_def)

lemma try_probe:
  "k < length fs \<Longrightarrow> tryLoadFormats i fs k s =
     s\<lparr> probes := probes s @ [FormatProbe i fs k (fs ! k)], requests := requests s @ [(i, fs ! k)] \<rparr>"
  by (simp add: tryLoadFormats_def Let_def)

lemma try_exhausted: "length fs \<le> k \<Longrightarrow> tryLoadFormats i fs k s = handleImageError i s"
  by (simp add: tryLoadFormats_def)

lemma onload_format:
  "src (imgs (onload (FormatProbe i fs k c) s) i) = c"
  "i \<in> loadedImages (onload (FormatProbe i fs k c) s)"
  "i \<notin> loadingImages (onload (FormatProbe i fs k c) s)"
  "probes (onload (FormatProbe i fs k c) s) = probes s"
  "requests (onload (FormatProbe i fs k c) s) = requests s"
  "''loaded'' \<in> set (classList (imgs (onload (FormatProbe i fs k c) s) i))"
  by (simp_all add: commitSource_def markImageLoaded_def Let_def classAdd_def)

lemma pass_run:
  assumes "fs = pre @ c # cs" and "length pre = k" and "FormatProbe i fs k c \<in> set (probes s)"
  shows "requests (run (answerPass net i fs k (c # cs)) s)
           = requests s @ map (Pair i) (if net c then [] else attempted net cs)
         \<and> (\<forall>d. find net (c # cs) = Some d \<longrightarrow>
              src (imgs (run (answerPass net i fs k (c # cs)) s) i) = d
              \<and> i \<in> loadedImages (run (answerPass net i fs k (c # cs)) s)
              \<and> i \<notin> loadingImages (run (answerPass net i fs k (c # cs)) s))"
  using assms
proof (induction cs arbitrary: c k pre s)
  case Nil
  then show ?case
    by (simp add: onload_format try_exhausted attempted_def del: onload.simps)
next
  case (Cons c' cs)
  show ?case
  proof (cases "net c")
    case True
    with Cons.prems show ?thesis by (simp add: onload_format del: onload.simps)
  next
    case False
    let ?s1 = "s\<lparr> probes := remove1 (FormatProbe i fs k c) (probes s) \<rparr>"
    let ?s2 = "tryLoadFormats i fs (Suc k) ?s1"
    have len: "Suc k < length fs" using Cons.prems by simp
    have nth: "fs ! Suc k = c'" using Cons.prems by (simp add: nth_append)
    have s2: "?s2 = ?s1\<lparr> probes := probes ?s1 @ [FormatProbe i fs (Suc k) c'],
                          requests := requests ?s1 @ [(i, c')] \<rparr>"
      using try_probe[OF len, of i ?s1] nth by simp
    have fs': "fs = (pre @ [c]) @ c' # cs" using Cons.prems by simp
    have k': "length (pre @ [c]) = Suc k" using Cons.prems by simp
    have pend: "FormatProbe i fs (Suc k) c' \<in> set (probes ?s2)" by (simp add: s2)
    have run_eq: "run (answerPass net i fs k (c # c' # cs)) s = run (answerPass net i fs (Suc k) (c' # cs)) ?s2"
      using False Cons.prems(3) by simp
    from Cons.IH[OF fs' k' pend]
    show ?thesis unfolding run_eq using False
      by (simp add: s2 attempted_Cons)
  qed
qed

lemma cand_ensure [simp]: "candidates (imgs (ensureImageContainer i s) i) = candidates (imgs s i)"
  by (simp add: candidates_def)

lemma load_starts:
  assumes "i \<notin> loadingImages s" and "candidates (imgs s i) = c # cs"
  shows "loadImageProgressive i s =
     (ensureImageContainer i (s\<lparr> loadingImages := insert i (loadingImages s) \<rparr>))
       \<lparr> probes := probes s @ [FormatProbe i (c # cs) 0 c], requests := requests s @ [(i, c)] \<rparr>"
  using assms by (simp add: loadImageProgressive_def Let_def try_probe)

lemma pass_from_trigger:
  assumes "i \<notin> loadingImages s" and "fs = candidates (imgs s i)" and "fs \<noteq> []"
  shows "requests (run (LoadImage i # passEvents net i fs) s) = requests s @ map (Pair i) (attempted net fs)
       \<and> take (length (attempted net fs)) fs = attempted net fs
       \<and> (\<forall>d. find net fs = Some d \<longrightarrow>
              src (imgs (run (LoadImage i # passEvents net i fs) s) i) = d
              \<and> i \<in> loadedImages (run (LoadImage i # passEvents net i fs) s)
              \<and> i \<notin> loadingImages (run (LoadImage i # passEvents net i fs) s))"
proof -
  from assms(3) obtain c cs where fs: "fs = c # cs" by (cases fs) simp_all
  let ?s1 = "loadImageProgressive i s"
  have s1: "?s1 = (ensureImageContainer i (s\<lparr> loadingImages := insert i (loadingImages s) \<rparr>))
       \<lparr> probes := probes s @ [FormatProbe i (c # cs) 0 c], requests := requests s @ [(i, c)] \<rparr>"
    using load_starts[OF assms(1), of c cs] assms(2) fs by simp
  have pend: "FormatProbe i fs 0 c \<in> set (probes ?s1)" by (simp add: s1 fs)
  have app: "fs = [] @ c # cs" by (simp add: fs)
  have r: "run (LoadImage i # passEvents net i fs) s = run (answerPass net i fs 0 (c # cs)) ?s1"
    by (simp add: passEvents_def fs)
  have rq: "requests ?s1 = requests s @ [(i, c)]" by (simp add: s1)
  have at: "attempted net fs = c # (if net c then [] else attempted net cs)"
    by (simp add: fs attempted_Cons)
  from pass_run[OF app _ pend, of net] rq at attempted_prefix[of net fs]
  show ?thesis unfolding r
    by (simp add: fs del: answerPass.simps)
qed

subsection \<open>What only probes and the detector change\<close>

lemma replace_other [simp]:
  "loadedImages (replaceImageWithProgressive i f s) = loadedImages s"
  "observed (replaceImageWithProgressive i f s) = observed s"
  by (simp_all add: replaceImageWithProgressive_def Let_def)

lemma fallback_other [simp]:
  "loadedImages (loadImageWithFallback i p f s) = loadedImages s"
  "observed (loadImageWithFallback i p f s) = observed s"
  by (simp_all add: loadImageWithFallback_def Let_def)

lemma entry_other [simp]:
  "loadedImages (observerEntry e s) = loadedImages s"
  "observed (observerEntry e s) = (if snd e then observed s - {fst e} else observed s)"
  by (cases e; simp add: observerEntry_def Let_def)+

lemma lazy_other [simp]:
  "loadedImages (lazyCallback es s) = loadedImages s"
  "observed (lazyCallback es s) = observed s - set (map fst (filter snd es))"
  unfolding lazyCallback_def
  by (induction es arbitrary: s; auto)+

lemma onerror_other [simp]:
  "loadedImages (onerror p s) = loadedImages s"
  "observed (onerror p s) = observed s"
  by (cases p; simp)+


lemma callback_other [simp]:
  "loadedImages (runCallback c s) = loadedImages s"
  "observed (runCallback c s) = observed s"
  by (cases c; simp)+

lemma pow_other [simp]:
  "loadedImages ((handleImageError i ^^ n) s) = loadedImages s"
  "observed ((handleImageError i ^^ n) s) = observed s"
  by (induction n; simp)+










subsection \<open>Contexts and class lists\<close>

lemma find_finds: "(\<exists>y. find P xs = Some y) = (\<exists>x \<in> set xs. P x)"
  by (induction xs) auto

lemma closest_inContext: "(closest c im \<noteq> None) = inContext c im"
  unfolding closest_def inContext_def by (simp add: find_finds)

lemma placeholder_by_priority:
  "getContextualPlaceholder im =
     (if inContext ''collection-card'' im then ''assets/images/placeholders/collection-placeholder.svg''
      else if inContext ''artwork-card'' im then ''assets/images/placeholders/artwork-placeholder.svg''
      else if inContext ''about'' im then ''assets/images/placeholders/avatar-placeholder.svg''
      else ''assets/images/placeholders/image-error.svg'')"
  unfolding getContextualPlaceholder_def closest_inContext by simp

lemma set_classAdd [simp]: "set (classAdd c cl) = insert c (set cl)"
  by (auto simp: classAdd_def)

lemma set_classRemove [simp]: "set (classRemove c cl) = set cl - {c}"
  by (simp add: classRemove_def)

lemma inContext_ensure:
  "c \<noteq> ''image-container'' \<Longrightarrow> c \<noteq> ''loading'' \<Longrightarrow>
   inContext c (imgs (ensureImageContainer i s) i) = inContext c (imgs s i)"
  by (auto simp: inContext_def ensureImageContainer_def)

lemma inContext_error_classes:
  "c \<noteq> ''error'' \<Longrightarrow> c \<noteq> ''loading'' \<Longrightarrow> c \<noteq> ''image-loading'' \<Longrightarrow>
   inContext c (im\<lparr> classList := classAdd ''error'' (classRemove ''loading'' (classList im)),
                    parentClassList := classAdd ''error''
                      (classRemove ''image-loading''
                         (classRemove ''loading'' (parentClassList im))) \<rparr>) = inContext c im"
  by (auto simp: inContext_def)

lemma placeholder_ensure:
  "getContextualPlaceholder (imgs (ensureImageContainer i s) i) = getContextualPlaceholder (imgs s i)"
  by (simp add: placeholder_by_priority inContext_ensure)

lemma placeholder_error_classes:
  "getContextualPlaceholder (im\<lparr> classList := classAdd ''error'' (classRemove ''loading'' (classList im)),
                    parentClassList := classAdd ''error''
                      (classRemove ''image-loading''
                         (classRemove ''loading'' (parentClassList im))) \<rparr>) = getContextualPlaceholder im"
  by (simp add: placeholder_by_priority inContext_error_classes)

lemma terminal_handler:
  assumes "retryCount s (originalSrc (imgs s i)) \<ge> maxRetries"
  shows "src (imgs (handleImageError i s) i) = getContextualPlaceholder (imgs s i)"
    and "alt (imgs (handleImageError i s) i) = ''Image temporarily unavailable''"
    and "''error'' \<in> set (classList (imgs (handleImageError i s) i))"
    and "''error'' \<in> set (parentClassList (imgs (handleImageError i s) i))"
    and "i \<notin> loadingImages (handleImageError i s)"
proof -
  have o: "originalSrc (imgs (ensureImageContainer i s) i) = originalSrc (imgs s i)"
    by (simp add: originalSrc_def)
  have n: "\<not> retryCount (ensureImageContainer i s) (originalSrc (imgs s i)) < maxRetries"
    using assms by (simp add: retryCount_def)
  have n': "\<not> retryCount (ensureImageContainer i s\<lparr>failedImages := X\<rparr>) (originalSrc (imgs s i)) < maxRetries" for X
    using assms by (simp add: retryCount_def)
  show "src (imgs (handleImageError i s) i) = getContextualPlaceholder (imgs s i)"
    using n' by (simp add: handleImageError_def Let_def o placeholder_error_classes
        placeholder_ensure del: ensure_img)
  show "alt (imgs (handleImageError i s) i) = ''Image temporarily unavailable''"
    using n' by (simp add: handleImageError_def Let_def o)
  show "''error'' \<in> set (classList (imgs (handleImageError i s) i))"
    using n' by (simp add: handleImageError_def Let_def o)
  show "''error'' \<in> set (parentClassList (imgs (handleImageError i s) i))"
    using n' by (simp add: handleImageError_def Let_def o)
  show "i \<notin> loadingImages (handleImageError i s)"
    using n' by (simp add: handleImageError_def Let_def o)
qed

subsection \<open>The failure handler on two elements\<close>

lemma orig_ensure [simp]: "originalSrc (imgs (ensureImageContainer i s) j) = originalSrc (imgs s j)"
  by (simp add: originalSrc_def)



lemma retryCount_frame [simp]:
  "retryCount (ensureImageContainer i s) k = retryCount s k"
  "retryCount (s\<lparr> failedImages := X \<rparr>) k = retryCount s k"
  by (simp_all add: retryCount_def)




subsection \<open>Priority order and first success\<close>

lemmas more_eval = svgPass_def svgCard_def svgFormats_def svgFailing_def svgFormatsAgain_def
  threeErrors_def viewport_def

text \<open>
  C2.  Take an element that is not loading and whose candidate list \<open>fs\<close> is not empty
  (of any length), trigger it, and let the network answer the probes of the pass.  The
  list is the non-empty entries of webp, jpg, fallback, data-src and src in that order.
  The sources assigned to detached probes during the pass are exactly the candidates up
  to and including the first that decodes, in list order (a prefix of \<open>fs\<close>), so nothing
  after a success is attempted; and when some candidate decodes, the first such one is
  the \<^verbatim>\<open>src\<close> of the live element, which is then in \<open>loadedImages\<close> and no longer in
  \<open>loadingImages\<close>.
\<close>

theorem candidates_tried_in_priority_order:
  assumes "i \<notin> loadingImages s" and "fs = candidates (imgs s i)" and "fs \<noteq> []"
  shows "fs = map the (filter truthy [dataset_webp (imgs s i), dataset_jpg (imgs s i),
                 dataset_fallback (imgs s i), dataset_src (imgs s i), Some (src (imgs s i))])
       \<and> requests (run (LoadImage i # passEvents net i fs) s)
            = requests s @ map (Pair i) (attempted net fs)
       \<and> take (length (attempted net fs)) fs = attempted net fs
       \<and> (\<forall>d. find net fs = Some d \<longrightarrow>
              src (imgs (run (LoadImage i # passEvents net i fs) s) i) = d
              \<and> i \<in> loadedImages (run (LoadImage i # passEvents net i fs) s)
              \<and> i \<notin> loadingImages (run (LoadImage i # passEvents net i fs) s))"
  using pass_from_trigger[OF assms, of net] assms(2) by (simp add: candidates_def)

theorem candidates_tried_in_priority_order_witness:
  "0 \<notin> loadingImages (newLoader (\<lambda>_. svgCard)) \<and>
   candidates svgCard = svgFormats \<and>
   requests (run (LoadImage 0 # passEvents (\<lambda>c. c = ''present.svg'') 0 svgFormats)
               (newLoader (\<lambda>_. svgCard)))
     = [(0, ''missing.webp''), (0, ''missing.jpg''), (0, ''present.svg'')] \<and>
   src (imgs (run (LoadImage 0 # passEvents (\<lambda>c. c = ''present.svg'') 0 svgFormats)
               (newLoader (\<lambda>_. svgCard))) 0) = ''present.svg'' \<and>
   candidates brokenPlain = [''broken.png''] \<and>
   requests (run (LoadImage 0 # passEvents (\<lambda>c. True) 0 [''broken.png''])
               (newLoader (\<lambda>_. brokenPlain))) = [(0, ''broken.png'')] \<and>
   src (imgs (run (LoadImage 0 # passEvents (\<lambda>c. True) 0 [''broken.png''])
               (newLoader (\<lambda>_. brokenPlain))) 0) = ''broken.png''"
proof -
  let ?s = "newLoader (\<lambda>_. svgCard)" and ?t = "newLoader (\<lambda>_. brokenPlain)"
  let ?net = "\<lambda>c. c = ''present.svg''" and ?all = "\<lambda>c::string. True"
  have a: "0 \<notin> loadingImages ?s" and a': "0 \<notin> loadingImages ?t"
    by (simp_all add: newLoader_def)
  have bb: "candidates svgCard = svgFormats"
    by (simp add: candidates_def truthy_def more_eval plainImg_def)
  have bb': "candidates brokenPlain = [''broken.png'']"
    by (simp add: candidates_def truthy_def brokenPlain_def plainImg_def)
  have b: "svgFormats = candidates (imgs ?s 0)" and b': "[''broken.png''] = candidates (imgs ?t 0)"
    by (simp_all add: newLoader_def bb bb')
  have c: "svgFormats \<noteq> []" and c': "[''broken.png''] \<noteq> []"
    by (simp_all add: svgFormats_def)
  have at: "attempted ?net svgFormats = [''missing.webp'', ''missing.jpg'', ''present.svg'']"
    and fi: "find ?net svgFormats = Some ''present.svg''"
    by (simp_all add: attempted_def svgFormats_def)
  have at': "attempted ?all [''broken.png''] = [''broken.png'']"
    and fi': "find ?all [''broken.png''] = Some ''broken.png''"
    by (simp_all add: attempted_def)
  have q: "requests ?s = []" and q': "requests ?t = []" by (simp_all add: newLoader_def)
  note T = candidates_tried_in_priority_order [OF a b c, of ?net]
  note T' = candidates_tried_in_priority_order [OF a' b' c', of ?all]
  have w1: "requests (run (LoadImage 0 # passEvents ?net 0 svgFormats) ?s)
              = [(0, ''missing.webp''), (0, ''missing.jpg''), (0, ''present.svg'')]"
    using T[THEN conjunct2, THEN conjunct1] by (simp only: at q) simp
  have w2: "src (imgs (run (LoadImage 0 # passEvents ?net 0 svgFormats) ?s) 0) = ''present.svg''"
    using T[THEN conjunct2, THEN conjunct2, THEN conjunct2, rule_format, OF fi] by (rule conjunct1)
  have w1': "requests (run (LoadImage 0 # passEvents ?all 0 [''broken.png'']) ?t) = [(0, ''broken.png'')]"
    using T'[THEN conjunct2, THEN conjunct1] by (simp only: at' q') simp
  have w2': "src (imgs (run (LoadImage 0 # passEvents ?all 0 [''broken.png'']) ?t) 0) = ''broken.png''"
    using T'[THEN conjunct2, THEN conjunct2, THEN conjunct2, rule_format, OF fi'] by (rule conjunct1)
  show ?thesis by (intro conjI a bb w1 w2 bb' w1' w2')
qed

subsection \<open>Success, and triggers after it\<close>









subsection \<open>Two elements and one source reference\<close>




subsection \<open>The placeholder\<close>

text \<open>
  C7, as the code has it.  The placeholder is a function of the element's own class
  list and those of its ancestors, by fixed priority and not by depth: a collection
  card anywhere in the chain gives the collection placeholder, otherwise an artwork
  card gives the artwork placeholder, otherwise the about region gives the avatar
  placeholder, otherwise the generic one.  When the retry counter of the element's
  original source has reached \<open>maxRetries\<close>, the handler gives the element that
  placeholder, the alternative text, and the error class on element and container.
\<close>

theorem placeholder_by_fixed_priority:
  "getContextualPlaceholder im =
     (if inContext ''collection-card'' im
        then ''assets/images/placeholders/collection-placeholder.svg''
      else if inContext ''artwork-card'' im
        then ''assets/images/placeholders/artwork-placeholder.svg''
      else if inContext ''about'' im
        then ''assets/images/placeholders/avatar-placeholder.svg''
      else ''assets/images/placeholders/image-error.svg'')
   \<and> (maxRetries \<le> retryCount s (originalSrc (imgs s i)) \<longrightarrow>
         src (imgs (handleImageError i s) i) = getContextualPlaceholder (imgs s i)
       \<and> alt (imgs (handleImageError i s) i) = ''Image temporarily unavailable''
       \<and> ''error'' \<in> set (classList (imgs (handleImageError i s) i))
       \<and> ''error'' \<in> set (parentClassList (imgs (handleImageError i s) i)))"
proof (intro conjI impI)
  assume h: "maxRetries \<le> retryCount s (originalSrc (imgs s i))"
  show "src (imgs (handleImageError i s) i) = getContextualPlaceholder (imgs s i)"
    by (rule terminal_handler(1)[OF h])
  show "alt (imgs (handleImageError i s) i) = ''Image temporarily unavailable''"
    by (rule terminal_handler(2)[OF h])
  show "''error'' \<in> set (classList (imgs (handleImageError i s) i))"
    by (rule terminal_handler(3)[OF h])
  show "''error'' \<in> set (parentClassList (imgs (handleImageError i s) i))"
    by (rule terminal_handler(4)[OF h])
qed (rule placeholder_by_priority)

lemma threeErrors_state:
  "retryCount (run threeErrors (newLoader (\<lambda>_. brokenCard))) ''bad2.jpg'' = 3"
  "originalSrc (imgs (run threeErrors (newLoader (\<lambda>_. brokenCard))) 0) = ''bad2.jpg''"
  "getContextualPlaceholder (imgs (run threeErrors (newLoader (\<lambda>_. brokenCard))) 0)
     = ''assets/images/placeholders/artwork-placeholder.svg''"
  by (simp_all add: loader_eval threeErrors_def)

theorem placeholder_by_fixed_priority_witness:
  "inContext ''collection-card'' nestedImg \<and>
   getContextualPlaceholder nestedImg = ''assets/images/placeholders/collection-placeholder.svg'' \<and>
   maxRetries \<le> retryCount (run threeErrors (newLoader (\<lambda>_. brokenCard)))
                  (originalSrc (imgs (run threeErrors (newLoader (\<lambda>_. brokenCard))) 0)) \<and>
   src (imgs (handleImageError 0 (run threeErrors (newLoader (\<lambda>_. brokenCard)))) 0)
     = ''assets/images/placeholders/artwork-placeholder.svg'' \<and>
   alt (imgs (handleImageError 0 (run threeErrors (newLoader (\<lambda>_. brokenCard)))) 0)
     = ''Image temporarily unavailable'' \<and>
   ''error'' \<in> set (classList (imgs (handleImageError 0 (run threeErrors (newLoader (\<lambda>_. brokenCard)))) 0)) \<and>
   ''error'' \<in> set (parentClassList (imgs (handleImageError 0 (run threeErrors (newLoader (\<lambda>_. brokenCard)))) 0))"
proof -
  let ?s = "run threeErrors (newLoader (\<lambda>_. brokenCard))"
  have c: "inContext ''collection-card'' nestedImg"
    by (simp add: inContext_def nestedImg_def plainImg_def)
  have h: "maxRetries \<le> retryCount ?s (originalSrc (imgs ?s 0))"
    by (simp only: threeErrors_state maxRetries_def)
  note P = placeholder_by_fixed_priority [where im=nestedImg and s="?s" and i=0]
  have w1: "getContextualPlaceholder nestedImg = ''assets/images/placeholders/collection-placeholder.svg''"
    using P[THEN conjunct1] c by simp
  note Q = P[THEN conjunct2, rule_format, OF h]
  have w2: "src (imgs (handleImageError 0 ?s) 0) = ''assets/images/placeholders/artwork-placeholder.svg''"
    using Q[THEN conjunct1] by (simp only: threeErrors_state)
  show ?thesis
    by (intro conjI c w1 h w2 Q[THEN conjunct2, THEN conjunct1]
          Q[THEN conjunct2, THEN conjunct2, THEN conjunct1]
          Q[THEN conjunct2, THEN conjunct2, THEN conjunct2])
qed

text \<open>
  C7 as stated fails.  For an element in an artwork card that is itself inside a
  collection card, the innermost recognised container is the artwork card, and the
  code returns the collection placeholder.
\<close>

theorem innermost_context_counterexample:
  "closest ''artwork-card'' nestedImg = Some [''artwork-card''] \<and>
   closest ''collection-card'' nestedImg = Some [''collection-card''] \<and>
   innermostPlaceholder nestedImg = ''assets/images/placeholders/artwork-placeholder.svg'' \<and>
   getContextualPlaceholder nestedImg = ''assets/images/placeholders/collection-placeholder.svg''"
  by (simp add: nestedImg_def plainImg_def closest_def getContextualPlaceholder_def
        innermostPlaceholder_def contextOf_def)

subsection \<open>The detector fires once\<close>





end
